theory Spec2Isabelle
  imports Main "HOL-Library.Sublist"
begin

section \<open>The documentation build hooks of \<^verbatim>\<open>source/conf.py\<close>\<close>

text \<open>
  The file defines two callbacks for the documentation engine: \<^verbatim>\<open>linkcode_resolve\<close>
  (the source-link resolver) and \<^verbatim>\<open>toctree_from_doc\<close> (the fragment renderer, a
  closure created per page inside \<^verbatim>\<open>html_page_context\<close>). Both are glue around
  the Python runtime, the \<^verbatim>\<open>inspect\<close> module and the engine. Whatever those
  answer is a parameter of the model; every exception they can raise is a result
  \<open>Inl e\<close>, and every \<^verbatim>\<open>try\<close>/\<^verbatim>\<open>except\<close> of the source is a case
  distinction on it.
\<close>

subsection \<open>Python values and exceptions\<close>

datatype py_exn =
  AttributeError | KeyError | TypeError | OSError | ValueError | UnicodeEncodeError
  | MemoryError | OtherError

text \<open>An object is known by its identity; what it answers is held by the runtime.\<close>

type_synonym pyobj = nat

record py_runtime =
  sys_modules :: "string \<rightharpoonup> pyobj option"
    \<comment> \<open>\<^verbatim>\<open>sys.modules\<close>; an entry may hold \<^verbatim>\<open>None\<close>\<close>
  py_getattr :: "pyobj \<Rightarrow> string \<Rightarrow> py_exn + pyobj"
    \<comment> \<open>\<^verbatim>\<open>getattr(obj, name)\<close>\<close>
  py_format :: "pyobj \<Rightarrow> py_exn + string"
    \<comment> \<open>formatting the object inside an f-string\<close>
  py_print :: "string \<Rightarrow> py_exn + unit"
    \<comment> \<open>\<^verbatim>\<open>print(line)\<close>: standard output takes the line or raises (a character it
        cannot encode, a closed stream)\<close>
  getsourcefile :: "pyobj \<Rightarrow> py_exn + string option"
    \<comment> \<open>\<^verbatim>\<open>inspect.getsourcefile\<close>: a file name, \<^verbatim>\<open>None\<close>, or an exception\<close>
  getsourcelines :: "pyobj \<Rightarrow> py_exn + (string list \<times> int)"
    \<comment> \<open>\<^verbatim>\<open>inspect.getsourcelines\<close>: the source lines and the starting line\<close>

text \<open>
  \<^verbatim>\<open>hasattr(obj, name)\<close> is true when \<^verbatim>\<open>getattr\<close> returns, false when it raises
  \<^verbatim>\<open>AttributeError\<close>, and lets every other exception through.
\<close>

definition py_hasattr :: "py_runtime \<Rightarrow> pyobj \<Rightarrow> string \<Rightarrow> py_exn + bool" where
  "py_hasattr R obj name =
     (case py_getattr R obj name of
        Inr v \<Rightarrow> Inr True
      | Inl e \<Rightarrow> (if e = AttributeError then Inr False else Inl e))"

text \<open>
  A \<^verbatim>\<open>print\<close> statement outside every \<^verbatim>\<open>try\<close> body, followed by the rest of the
  function: when the print raises, the exception is the outcome of the call.
\<close>

definition traced :: "py_runtime \<Rightarrow> string \<Rightarrow> py_exn + 'a \<Rightarrow> py_exn + 'a" where
  "traced R line rest = (case py_print R line of Inl e \<Rightarrow> Inl e | Inr u \<Rightarrow> rest)"

text \<open>Standard output takes every line of a list.\<close>

definition prints_ok :: "py_runtime \<Rightarrow> string list \<Rightarrow> bool" where
  "prints_ok R lines = list_all (\<lambda>line. py_print R line = Inr ()) lines"

subsection \<open>Strings\<close>

text \<open>
  \<^verbatim>\<open>s.split(sep)\<close> scans \<open>s\<close> from the left; at each occurrence of \<open>sep\<close> it closes
  the current piece and continues after the occurrence. The result is never empty.
  Python raises \<^verbatim>\<open>ValueError\<close> for an empty separator; both calls in the source pass
  a non-empty literal, and for an empty one the model finds no separator at all.
  Strings are lists of characters; a character from 128 on stands for one outside
  ASCII.
\<close>

function split_from :: "string \<Rightarrow> string \<Rightarrow> string \<Rightarrow> string list" where
  "split_from sep cur [] = [cur]"
| "split_from sep cur (c # cs) =
     (if sep \<noteq> [] \<and> prefix sep (c # cs)
      then cur # split_from sep [] (drop (length sep) (c # cs))
      else split_from sep (cur @ [c]) cs)"
  by pat_completeness auto
termination
  by (relation "measure (\<lambda>(sep, cur, s). length s)") auto

definition py_split :: "string \<Rightarrow> string \<Rightarrow> string list" where
  "py_split s sep = split_from sep [] s"

text \<open>\<^verbatim>\<open>"%d" % n\<close>: the decimal digits of an integer, with a minus sign below zero.\<close>

fun str_nat :: "nat \<Rightarrow> string" where
  "str_nat n =
     (if n < 10 then [''0123456789'' ! n]
      else str_nat (n div 10) @ [''0123456789'' ! (n mod 10)])"

declare str_nat.simps [simp del]

definition str_int :: "int \<Rightarrow> string" where
  "str_int i = (if i < 0 then CHR ''-'' # str_nat (nat (- i)) else str_nat (nat i))"

subsection \<open>The source-link resolver\<close>

definition repo_marker :: string where
  "repo_marker = ''giskard_hub''"

definition base_url :: string where
  "base_url = ''https://github.com/Giskard-AI/giskard-hub/blob/main/src/giskard_hub''"

text \<open>The line of fourteen hash signs printed before and after each run.\<close>

definition trace_rule :: string where
  "trace_rule = ''##############''"

text \<open>
  The \<^verbatim>\<open>except\<close> branch of the loop: it prints the rule, outside any \<^verbatim>\<open>try\<close>
  body, and returns \<^verbatim>\<open>None\<close>.
\<close>

definition walk_failed :: "py_runtime \<Rightarrow> py_exn + pyobj option" where
  "walk_failed R = traced R trace_rule (Inr None)"

text \<open>
  The loop over the parts of the dotted name. Its \<^verbatim>\<open>try\<close> body reads the
  attribute, formats the object read and prints it; any exception of the three
  enters the \<^verbatim>\<open>except\<close> branch.
\<close>

fun walk_parts :: "py_runtime \<Rightarrow> pyobj \<Rightarrow> string list \<Rightarrow> py_exn + pyobj option" where
  "walk_parts R obj [] = Inr (Some obj)"
| "walk_parts R obj (part # parts) =
     (case py_getattr R obj part of
        Inl e \<Rightarrow> walk_failed R
      | Inr obj' \<Rightarrow>
          (case py_format R obj' of
             Inl e \<Rightarrow> walk_failed R
           | Inr s \<Rightarrow>
               (case py_print R (''obj:'' @ s) of
                  Inl e \<Rightarrow> walk_failed R
                | Inr u \<Rightarrow> walk_parts R obj' parts)))"

text \<open>
  What the dotted name \<^verbatim>\<open>obj.p1.p2...\<close> denotes in Python, for comparison with the
  loop: the chain of attribute reads, or the first exception on the way.
\<close>

fun getattr_chain :: "py_runtime \<Rightarrow> pyobj \<Rightarrow> string list \<Rightarrow> py_exn + pyobj" where
  "getattr_chain R obj [] = Inr obj"
| "getattr_chain R obj (part # parts) =
     (case py_getattr R obj part of
        Inl e \<Rightarrow> Inl e
      | Inr obj' \<Rightarrow> getattr_chain R obj' parts)"

text \<open>
  The registry lookup, with the rule printed before \<^verbatim>\<open>return None\<close>, followed by
  the loop.
\<close>

definition resolve_object :: "py_runtime \<Rightarrow> string \<Rightarrow> string \<Rightarrow> py_exn + pyobj option" where
  "resolve_object R modname fullname =
     (case sys_modules R modname of
        None \<Rightarrow> traced R trace_rule (Inr None)
      | Some None \<Rightarrow> traced R trace_rule (Inr None)
      | Some (Some submod) \<Rightarrow> walk_parts R submod (py_split fullname ''.''))"

text \<open>
  The object handed to \<^verbatim>\<open>inspect.getsourcefile\<close>:
  \<^verbatim>\<open>obj.test_fn if hasattr(obj, "test_fn") else obj\<close>.
\<close>

definition sourcefile_target :: "py_runtime \<Rightarrow> pyobj \<Rightarrow> py_exn + pyobj" where
  "sourcefile_target R obj =
     (case py_hasattr R obj ''test_fn'' of
        Inl e \<Rightarrow> Inl e
      | Inr b \<Rightarrow> (if b then py_getattr R obj ''test_fn'' else Inr obj))"

text \<open>The first \<^verbatim>\<open>try\<close> block: \<open>fn\<close>, which is \<^verbatim>\<open>None\<close> after any exception.\<close>

definition resolve_fn :: "py_runtime \<Rightarrow> pyobj \<Rightarrow> string option" where
  "resolve_fn R obj =
     (case sourcefile_target R obj of
        Inl e \<Rightarrow> None
      | Inr tgt \<Rightarrow> (case getsourcefile R tgt of Inl e \<Rightarrow> None | Inr fn \<Rightarrow> fn))"

text \<open>
  The second \<^verbatim>\<open>try\<close> block and the \<^verbatim>\<open>if lineno:\<close> after it. The lines are
  those of \<open>obj\<close> itself.
\<close>

definition resolve_linespec :: "py_runtime \<Rightarrow> pyobj \<Rightarrow> string" where
  "resolve_linespec R obj =
     (case getsourcelines R obj of
        Inl e \<Rightarrow> ''''
      | Inr (source, lineno) \<Rightarrow>
          (if lineno \<noteq> 0
           then ''#L'' @ str_int lineno @ ''-L'' @ str_int (lineno + int (length source) - 1)
           else ''''))"

text \<open>
  The function from the point where \<open>obj\<close> is known: \<open>fn\<close>, the trace of \<open>fn\<close>,
  the line range and its trace, the relative path, the closing rule and the URL.
\<close>

definition link_of_object :: "py_runtime \<Rightarrow> pyobj \<Rightarrow> py_exn + string option" where
  "link_of_object R obj =
     (case resolve_fn R obj of
        None \<Rightarrow> traced R trace_rule (Inr None)
      | Some fn \<Rightarrow>
          if fn = [] then traced R trace_rule (Inr None)
          else
            traced R (''fn:'' @ fn)
              (let linespec = resolve_linespec R obj in
               traced R (''linespec:'' @ linespec)
                 (let filename = last (py_split fn repo_marker) in
                  traced R trace_rule
                    (Inr (Some (base_url @ filename @ linespec))))))"

definition linkcode_resolve ::
  "py_runtime \<Rightarrow> string \<Rightarrow> (string \<rightharpoonup> string) \<Rightarrow> py_exn + string option" where
  "linkcode_resolve R domain info =
     (if domain \<noteq> ''py'' then Inr None
      else case info ''module'' of
        None \<Rightarrow> Inl KeyError
      | Some modname \<Rightarrow>
      (case info ''fullname'' of
        None \<Rightarrow> Inl KeyError
      | Some fullname \<Rightarrow>
          traced R trace_rule
            (traced R (''modname:'' @ modname)
               (traced R (''fullname:'' @ fullname)
                  (case resolve_object R modname fullname of
                     Inl e \<Rightarrow> Inl e
                   | Inr None \<Rightarrow> Inr None
                   | Inr (Some obj) \<Rightarrow> link_of_object R obj)))))"

text \<open>The \<open>info\<close> dictionary the engine passes for a Python object.\<close>

definition py_info :: "string \<Rightarrow> string \<Rightarrow> (string \<rightharpoonup> string)" where
  "py_info modname fullname = [''module'' \<mapsto> modname, ''fullname'' \<mapsto> fullname]"

subsection \<open>The fragment renderer\<close>

text \<open>
  Keyword arguments are Python values. A resolved navigation tree is a docutils
  element: a tag and the list of its children.
\<close>

datatype pyval = PyNone | PyBool bool | PyInt int | PyStr string

datatype element = Element (tagname: string) (children: "element list")

text \<open>\<^verbatim>\<open>Element.append\<close> adds one child at the end; \<^verbatim>\<open>Element.extend\<close> appends each
  item in turn.\<close>

definition element_append :: "element \<Rightarrow> element \<Rightarrow> element" where
  "element_append e c = Element (tagname e) (children e @ [c])"

definition element_extend :: "element \<Rightarrow> element list \<Rightarrow> element" where
  "element_extend e items = foldl element_append e items"

text \<open>The keyword arguments of \<^verbatim>\<open>TocTree.resolve\<close>.\<close>

record resolve_opts =
  prune :: bool
  maxdepth :: pyval
  titles_only :: pyval
  collapse :: pyval
  includehidden :: pyval

text \<open>
  What the engine answers: \<^verbatim>\<open>app.env.get_doctree\<close>, the toctree nodes that
  \<^verbatim>\<open>findall(addnodes.toctree)\<close> yields in document order,
  \<^verbatim>\<open>TocTree(app.env).resolve\<close> (an element or \<^verbatim>\<open>None\<close>) and
  \<^verbatim>\<open>app.builder.render_partial\<close> (a dictionary of strings).
\<close>

record ('doc, 'toc) sphinx_app =
  get_doctree :: "string \<Rightarrow> py_exn + 'doc"
  findall_toctree :: "'doc \<Rightarrow> 'toc list"
  toctree_resolve :: "string \<Rightarrow> 'toc \<Rightarrow> resolve_opts \<Rightarrow> py_exn + element option"
  render_partial :: "element \<Rightarrow> py_exn + (string \<rightharpoonup> string)"

text \<open>\<^verbatim>\<open>kwargs.get(key, default)\<close>.\<close>

definition kwargs_get :: "(string \<rightharpoonup> pyval) \<Rightarrow> string \<Rightarrow> pyval \<Rightarrow> pyval" where
  "kwargs_get kwargs key dflt = (case kwargs key of None \<Rightarrow> dflt | Some v \<Rightarrow> v)"

definition opts_of_kwargs :: "(string \<rightharpoonup> pyval) \<Rightarrow> resolve_opts" where
  "opts_of_kwargs kwargs =
     \<lparr>prune = False,
      maxdepth = kwargs_get kwargs ''maxdepth'' (PyInt (- 1)),
      titles_only = kwargs_get kwargs ''titles_only'' (PyBool False),
      collapse = kwargs_get kwargs ''collapse'' (PyBool False),
      includehidden = kwargs_get kwargs ''includehidden'' (PyBool False)\<rparr>"

text \<open>
  The list comprehension: one call of \<^verbatim>\<open>resolve\<close> per toctree node, in order, each
  with \<open>pagename\<close>; the first exception ends it.
\<close>

fun resolve_all ::
  "('doc, 'toc) sphinx_app \<Rightarrow> string \<Rightarrow> (string \<rightharpoonup> pyval) \<Rightarrow> 'toc list
     \<Rightarrow> py_exn + element option list" where
  "resolve_all A pagename kwargs [] = Inr []"
| "resolve_all A pagename kwargs (toctree # toctrees) =
     (case toctree_resolve A pagename toctree (opts_of_kwargs kwargs) of
        Inl e \<Rightarrow> Inl e
      | Inr r \<Rightarrow>
          (case resolve_all A pagename kwargs toctrees of
             Inl e \<Rightarrow> Inl e
           | Inr rs \<Rightarrow> Inr (r # rs)))"

text \<open>\<^verbatim>\<open>[r for r in resolved if r is not None]\<close>.\<close>

definition drop_none :: "element option list \<Rightarrow> element list" where
  "drop_none rs = map the (filter (\<lambda>r. r \<noteq> None) rs)"

text \<open>The loop \<^verbatim>\<open>for toctree in resolved[1:]: result.extend(toctree.children)\<close>.\<close>

definition merge_resolved :: "element \<Rightarrow> element list \<Rightarrow> element" where
  "merge_resolved result rest = foldl (\<lambda>res toctree. element_extend res (children toctree)) result rest"

text \<open>\<^verbatim>\<open>app.builder.render_partial(result)["fragment"]\<close>.\<close>

definition render_fragment :: "('doc, 'toc) sphinx_app \<Rightarrow> element \<Rightarrow> py_exn + string" where
  "render_fragment A result =
     (case render_partial A result of
        Inl e \<Rightarrow> Inl e
      | Inr parts \<Rightarrow>
          (case parts ''fragment'' of
             None \<Rightarrow> Inl KeyError
           | Some fragment \<Rightarrow> Inr fragment))"

text \<open>
  \<open>pagename\<close> is the variable of the enclosing \<^verbatim>\<open>html_page_context\<close>, \<open>docname\<close>
  and \<open>kwargs\<close> are the arguments of the call.
\<close>

definition toctree_from_doc ::
  "('doc, 'toc) sphinx_app \<Rightarrow> string \<Rightarrow> string \<Rightarrow> (string \<rightharpoonup> pyval) \<Rightarrow> py_exn + string" where
  "toctree_from_doc A pagename docname kwargs =
     (case get_doctree A docname of
        Inl e \<Rightarrow> Inl e
      | Inr source_doctree \<Rightarrow>
          let toctrees = findall_toctree A source_doctree in
          if toctrees = [] then Inr []
          else
            (case resolve_all A pagename kwargs toctrees of
               Inl e \<Rightarrow> Inl e
             | Inr resolved \<Rightarrow>
                 (case drop_none resolved of
                    [] \<Rightarrow> Inr []
                  | result # rest \<Rightarrow> render_fragment A (merge_resolved result rest))))"

subsection \<open>The fragment renderer on a store of nodes\<close>

text \<open>
  A tree that \<^verbatim>\<open>TocTree.resolve\<close> returns is an object, and
  \<^verbatim>\<open>result.extend\<close> changes the first of them in place. To follow what a
  second call can see of the first, the roots of the resolved trees live in a
  store: the object at address \<open>a\<close> of the store \<open>h\<close> is \<open>h ! a\<close>, allocated when
  \<open>a < length h\<close>. Only roots are changed by the renderer, so the children of a
  root are kept as the trees they are. The engine's \<^verbatim>\<open>resolve\<close> reads and writes
  the store as it likes and answers with an address; the rest of the engine is as
  before.
\<close>

type_synonym addr = nat

type_synonym node_store = "element list"

record ('doc, 'toc) sphinx_engine =
  eng_get_doctree :: "string \<Rightarrow> py_exn + 'doc"
  eng_findall_toctree :: "'doc \<Rightarrow> 'toc list"
  eng_resolve ::
    "string \<Rightarrow> 'toc \<Rightarrow> resolve_opts \<Rightarrow> node_store \<Rightarrow> (py_exn + addr option) \<times> node_store"
  eng_render_partial :: "element \<Rightarrow> py_exn + (string \<rightharpoonup> string)"

text \<open>The list comprehension, with the store passed from one call of \<^verbatim>\<open>resolve\<close> to the next.\<close>

fun resolve_all_st ::
  "('doc, 'toc) sphinx_engine \<Rightarrow> string \<Rightarrow> (string \<rightharpoonup> pyval) \<Rightarrow> 'toc list \<Rightarrow> node_store
     \<Rightarrow> (py_exn + addr option list) \<times> node_store" where
  "resolve_all_st E pagename kwargs [] h = (Inr [], h)"
| "resolve_all_st E pagename kwargs (toctree # toctrees) h =
     (case eng_resolve E pagename toctree (opts_of_kwargs kwargs) h of
        (Inl e, h1) \<Rightarrow> (Inl e, h1)
      | (Inr r, h1) \<Rightarrow>
          (case resolve_all_st E pagename kwargs toctrees h1 of
             (Inl e, h2) \<Rightarrow> (Inl e, h2)
           | (Inr rs, h2) \<Rightarrow> (Inr (r # rs), h2)))"

definition drop_none_addr :: "addr option list \<Rightarrow> addr list" where
  "drop_none_addr rs = map the (filter (\<lambda>r. r \<noteq> None) rs)"

text \<open>
  \<^verbatim>\<open>result.extend(toctree.children)\<close> on the store. \<^verbatim>\<open>Element.extend\<close> appends to
  the child list of \<open>result\<close> while it iterates over the list it was given: when
  that is the child list of \<open>result\<close> itself and it is not empty, the loop never
  reaches its end and memory runs out. An address that is not allocated cannot
  occur in Python; the model gives it an error of its own.
\<close>

definition extend_at :: "node_store \<Rightarrow> addr \<Rightarrow> addr \<Rightarrow> (py_exn + unit) \<times> node_store" where
  "extend_at h result toctree =
     (if result < length h \<and> toctree < length h then
        (if toctree = result \<and> children (h ! toctree) \<noteq> [] then (Inl MemoryError, h)
         else (Inr (), h[result := element_extend (h ! result) (children (h ! toctree))]))
      else (Inl OtherError, h))"

fun merge_st :: "node_store \<Rightarrow> addr \<Rightarrow> addr list \<Rightarrow> (py_exn + unit) \<times> node_store" where
  "merge_st h result [] = (Inr (), h)"
| "merge_st h result (toctree # rest) =
     (case extend_at h result toctree of
        (Inl e, h1) \<Rightarrow> (Inl e, h1)
      | (Inr u, h1) \<Rightarrow> merge_st h1 result rest)"

definition render_fragment_st ::
  "('doc, 'toc) sphinx_engine \<Rightarrow> node_store \<Rightarrow> addr \<Rightarrow> py_exn + string" where
  "render_fragment_st E h result =
     (if result < length h then
        (case eng_render_partial E (h ! result) of
           Inl e \<Rightarrow> Inl e
         | Inr parts \<Rightarrow>
             (case parts ''fragment'' of
                None \<Rightarrow> Inl KeyError
              | Some fragment \<Rightarrow> Inr fragment))
      else Inl OtherError)"

text \<open>The call: its outcome and the store it leaves.\<close>

definition toctree_from_doc_st ::
  "('doc, 'toc) sphinx_engine \<Rightarrow> string \<Rightarrow> string \<Rightarrow> (string \<rightharpoonup> pyval) \<Rightarrow> node_store
     \<Rightarrow> (py_exn + string) \<times> node_store" where
  "toctree_from_doc_st E pagename docname kwargs h =
     (case eng_get_doctree E docname of
        Inl e \<Rightarrow> (Inl e, h)
      | Inr source_doctree \<Rightarrow>
          let toctrees = eng_findall_toctree E source_doctree in
          if toctrees = [] then (Inr [], h)
          else
            (case resolve_all_st E pagename kwargs toctrees h of
               (Inl e, h1) \<Rightarrow> (Inl e, h1)
             | (Inr resolved, h1) \<Rightarrow>
                 (case drop_none_addr resolved of
                    [] \<Rightarrow> (Inr [], h1)
                  | result # rest \<Rightarrow>
                      (case merge_st h1 result rest of
                         (Inl e, h2) \<Rightarrow> (Inl e, h2)
                       | (Inr u, h2) \<Rightarrow> (render_fragment_st E h2 result, h2)))))"

text \<open>
  What is known of the engine: \<^verbatim>\<open>TocTree.resolve\<close> builds the tree it returns anew
  at each call, from the document environment alone. \<open>tree_of\<close> is the tree the
  environment gives for a page, a toctree node and the options; the engine puts it
  at the first free address and touches nothing else.
\<close>

definition builds_fresh ::
  "('doc, 'toc) sphinx_engine \<Rightarrow> (string \<Rightarrow> 'toc \<Rightarrow> resolve_opts \<Rightarrow> py_exn + element option)
     \<Rightarrow> bool" where
  "builds_fresh E tree_of =
     (\<forall>page toctree opts h.
        eng_resolve E page toctree opts h =
          (case tree_of page toctree opts of
             Inl e \<Rightarrow> (Inl e, h)
           | Inr None \<Rightarrow> (Inr None, h)
           | Inr (Some tree) \<Rightarrow> (Inr (Some (length h)), h @ [tree])))"

text \<open>The engine seen without the store: \<^verbatim>\<open>resolve\<close> answers with the tree itself.\<close>

definition app_of ::
  "('doc, 'toc) sphinx_engine \<Rightarrow> (string \<Rightarrow> 'toc \<Rightarrow> resolve_opts \<Rightarrow> py_exn + element option)
     \<Rightarrow> ('doc, 'toc) sphinx_app" where
  "app_of E tree_of =
     \<lparr>get_doctree = eng_get_doctree E,
      findall_toctree = eng_findall_toctree E,
      toctree_resolve = tree_of,
      render_partial = eng_render_partial E\<rparr>"

text \<open>
  Where such an engine puts the trees of a list of resolutions, starting at the
  free address \<open>n\<close>: one after the other, in the order of the list.
\<close>

fun addrs_from :: "addr \<Rightarrow> element option list \<Rightarrow> addr option list" where
  "addrs_from n [] = []"
| "addrs_from n (None # rs) = None # addrs_from n rs"
| "addrs_from n (Some tree # rs) = Some n # addrs_from (Suc n) rs"

subsection \<open>A small runtime and a small site\<close>

text \<open>
  A runtime with one loaded module \<^verbatim>\<open>pkg.checks\<close> (object 0). Its attribute
  \<^verbatim>\<open>Wrapper\<close> (object 1) carries \<^verbatim>\<open>test_fn\<close> (object 2); \<^verbatim>\<open>plain\<close> (object 3)
  lives outside any checkout of the repository; \<^verbatim>\<open>sub\<close> (object 4) is a module,
  whose source starts at line 0; \<^verbatim>\<open>built\<close> (object 5) has a file but no lines;
  \<^verbatim>\<open>ghost\<close> (object 6) has no source file. Two more attributes have a file name
  outside ASCII: \<^verbatim>\<open>menu\<close> (object 7), without lines, and \<^verbatim>\<open>carte\<close> (object 8),
  outside any checkout. Standard output takes every line.
\<close>

definition demo_getattr :: "pyobj \<Rightarrow> string \<Rightarrow> py_exn + pyobj" where
  "demo_getattr obj name =
     (if obj = 0 \<and> name = ''Wrapper'' then Inr 1
      else if obj = 1 \<and> name = ''test_fn'' then Inr 2
      else if obj = 0 \<and> name = ''plain'' then Inr 3
      else if obj = 0 \<and> name = ''sub'' then Inr 4
      else if obj = 0 \<and> name = ''built'' then Inr 5
      else if obj = 0 \<and> name = ''ghost'' then Inr 6
      else if obj = 0 \<and> name = ''menu'' then Inr 7
      else if obj = 0 \<and> name = ''carte'' then Inr 8
      else Inl AttributeError)"

definition demo_sourcefile :: "pyobj \<Rightarrow> py_exn + string option" where
  "demo_sourcefile obj =
     (if obj = 1 then Inr (Some ''/w/giskard_hub/wrap.py'')
      else if obj = 2 then Inr (Some ''/env/giskard_hub/checks/base.py'')
      else if obj = 3 then Inr (Some ''/opt/lib/plain.py'')
      else if obj = 4 then Inr (Some ''/env/giskard_hub/sub/__init__.py'')
      else if obj = 5 then Inr (Some ''/env/giskard_hub/built.py'')
      else if obj = 6 then Inr None
      else if obj = 7 then Inr (Some (''/env/giskard_hub/caf'' @ [CHR 0xE9] @ ''.py''))
      else if obj = 8 then Inr (Some (''/opt/caf'' @ [CHR 0xE9] @ ''/carte.py''))
      else Inl TypeError)"

definition demo_sourcelines :: "pyobj \<Rightarrow> py_exn + (string list \<times> int)" where
  "demo_sourcelines obj =
     (if obj = 1 then Inr ([''a'', ''b'', ''c''], 20)
      else if obj = 2 then Inr ([''d'', ''e''], 10)
      else if obj = 3 then Inr ([''f'', ''g''], 7)
      else if obj = 4 then Inr ([''h'', ''i''], 0)
      else if obj = 8 then Inr ([''j''], 3)
      else Inl OSError)"

definition demo_runtime :: py_runtime where
  "demo_runtime =
     \<lparr>sys_modules = [''pkg.checks'' \<mapsto> Some 0],
      py_getattr = demo_getattr,
      py_format = (\<lambda>obj. Inr ''x''),
      py_print = (\<lambda>line. Inr ()),
      getsourcefile = demo_sourcefile,
      getsourcelines = demo_sourcelines\<rparr>"

text \<open>
  The same runtime with a standard output that encodes ASCII only: a line with any
  other character raises \<^verbatim>\<open>UnicodeEncodeError\<close>.
\<close>

definition ascii_print :: "string \<Rightarrow> py_exn + unit" where
  "ascii_print line =
     (if list_all (\<lambda>c. (of_char c :: nat) < 128) line then Inr () else Inl UnicodeEncodeError)"

definition ascii_runtime :: py_runtime where
  "ascii_runtime = demo_runtime\<lparr>py_print := ascii_print\<rparr>"

text \<open>
  A site whose document \<^verbatim>\<open>nav\<close> holds three toctree nodes 1, 2 and 3. Seen from
  page \<^verbatim>\<open>page\<close>, node 1 resolves to a tree with children \<open>a\<close>, \<open>b\<close>, node 2 to
  nothing and node 3 to a tree with child \<open>c\<close>; seen from any other page they
  resolve to nothing. Document \<^verbatim>\<open>bare\<close> holds no toctree node, document
  \<^verbatim>\<open>hidden\<close> holds node 2 only.
\<close>

definition demo_resolve :: "string \<Rightarrow> nat \<Rightarrow> resolve_opts \<Rightarrow> py_exn + element option" where
  "demo_resolve page toc opts =
     (if page = ''page'' \<and> toc = 1
        then Inr (Some (Element ''ul'' [Element ''a'' [], Element ''b'' []]))
      else if page = ''page'' \<and> toc = 3
        then Inr (Some (Element ''ol'' [Element ''c'' []]))
      else Inr None)"

fun demo_render_tags :: "element \<Rightarrow> string" where
  "demo_render_tags (Element t cs) = t @ ''('' @ concat (map demo_render_tags cs) @ '')''"

definition demo_app :: "(nat list, nat) sphinx_app" where
  "demo_app =
     \<lparr>get_doctree = (\<lambda>d. if d = ''nav'' then Inr [1, 2, 3]
                          else if d = ''bare'' then Inr []
                          else if d = ''hidden'' then Inr [2]
                          else Inl OtherError),
      findall_toctree = (\<lambda>doc. doc),
      toctree_resolve = demo_resolve,
      render_partial = (\<lambda>e. Inr [''fragment'' \<mapsto> demo_render_tags e])\<rparr>"

text \<open>
  Two engines for the same site. The first builds a new tree at each resolution.
  The second keeps one tree per toctree node, at the address that is the number of
  the node, and hands the same object out again.
\<close>

definition alloc_tree ::
  "py_exn + element option \<Rightarrow> node_store \<Rightarrow> (py_exn + addr option) \<times> node_store" where
  "alloc_tree r h =
     (case r of
        Inl e \<Rightarrow> (Inl e, h)
      | Inr None \<Rightarrow> (Inr None, h)
      | Inr (Some tree) \<Rightarrow> (Inr (Some (length h)), h @ [tree]))"

definition demo_engine :: "(nat list, nat) sphinx_engine" where
  "demo_engine =
     \<lparr>eng_get_doctree = get_doctree demo_app,
      eng_findall_toctree = findall_toctree demo_app,
      eng_resolve = (\<lambda>page toc opts. alloc_tree (demo_resolve page toc opts)),
      eng_render_partial = render_partial demo_app\<rparr>"

definition keeping_engine :: "(nat list, nat) sphinx_engine" where
  "keeping_engine =
     demo_engine\<lparr>eng_resolve :=
       (\<lambda>page toc opts h.
          if page = ''page'' \<and> (toc = 1 \<or> toc = 3) \<and> toc < length h then (Inr (Some toc), h)
          else (Inr None, h))\<rparr>"

definition kept_store :: node_store where
  "kept_store =
     [Element ''none'' [],
      Element ''ul'' [Element ''a'' [], Element ''b'' []],
      Element ''none'' [],
      Element ''ol'' [Element ''c'' []]]"

section \<open>Properties of the source-link resolver\<close>

subsection \<open>Splitting at a separator\<close>

lemma split_from_not_Nil: "split_from sep cur s \<noteq> []"
  by (induction sep cur s rule: split_from.induct) auto

lemma split_from_no_occurrence:
  "\<not> sublist sep s \<Longrightarrow> split_from sep cur s = [cur @ s]"
proof (induction sep cur s rule: split_from.induct)
  case (1 sep cur)
  then show ?case by simp
next
  case (2 sep cur c cs)
  from "2.prems" have np: "\<not> prefix sep (c # cs)"
    using prefix_imp_sublist by blast
  from "2.prems" have "\<not> sublist sep cs"
    by (simp add: sublist_Cons_right)
  with 2 np show ?case by simp
qed

lemma occurrences_apart:
  assumes sep: "sep = a # m" "a \<notin> set m"
    and pre: "prefix sep (pre @ sep @ suf)" "pre \<noteq> []"
  shows "length sep \<le> length pre"
proof (rule ccontr)
  assume "\<not> length sep \<le> length pre"
  then have lt: "length pre < length sep" by simp
  from pre(1) obtain zs where eq: "pre @ sep @ suf = sep @ zs"
    by (auto simp: prefix_def)
  have "(pre @ sep @ suf) ! length pre = a"
    using sep(1) by (simp add: nth_append)
  moreover have "(sep @ zs) ! length pre = sep ! length pre"
    using lt by (simp add: nth_append)
  ultimately have "sep ! length pre = a" using eq by simp
  moreover from pre(2) lt obtain k where k: "length pre = Suc k" "k < length m"
    using sep(1) by (cases "length pre") auto
  ultimately have "m ! k = a" using sep(1) by simp
  with k(2) sep(2) show False using nth_mem by blast
qed

lemma last_split_from:
  assumes sep: "sep = a # m" "a \<notin> set m"
  shows "s = pre @ sep @ suf \<Longrightarrow> \<not> sublist sep suf \<Longrightarrow> last (split_from sep cur s) = suf"
proof (induction "length s" arbitrary: s pre cur rule: less_induct)
  case less
  from sep(1) have ne: "sep \<noteq> []" by simp
  from less.prems(1) ne have "s \<noteq> []" by simp
  then obtain c cs where s: "s = c # cs"
    by (cases s) simp_all
  show ?case
  proof (cases "prefix sep s")
    case True
    let ?rest = "drop (length sep) s"
    have step: "last (split_from sep cur s) = last (split_from sep [] ?rest)"
      using True ne s split_from_not_Nil [of sep "[]" ?rest] by simp
    show ?thesis
    proof (cases "pre = []")
      case True
      then have "?rest = suf" using less.prems(1) by simp
      then show ?thesis
        using step split_from_no_occurrence [OF less.prems(2), of "[]"] by simp
    next
      case False
      from True less.prems(1) have "prefix sep (pre @ sep @ suf)" by simp
      then have le: "length sep \<le> length pre"
        using occurrences_apart [OF sep] False by blast
      then have rest: "?rest = drop (length sep) pre @ sep @ suf"
        using less.prems(1) by simp
      have "length ?rest < length s" using ne s by simp
      then have "last (split_from sep [] ?rest) = suf"
        using less.hyps [OF _ rest less.prems(2)] by blast
      with step show ?thesis by simp
    qed
  next
    case False
    then have "pre \<noteq> []" using less.prems(1) by auto
    then obtain pre' where pre: "pre = c # pre'"
      using less.prems(1) s by (cases pre) auto
    then have cs: "cs = pre' @ sep @ suf" using less.prems(1) s by simp
    have "split_from sep cur s = split_from sep (cur @ [c]) cs"
      using False s by simp
    moreover have "last (split_from sep (cur @ [c]) cs) = suf"
      using less.hyps [OF _ cs less.prems(2)] s by simp
    ultimately show ?thesis by simp
  qed
qed

lemma marker_head_unique: "repo_marker = CHR ''g'' # ''iskard_hub'' \<and> CHR ''g'' \<notin> set ''iskard_hub''"
  by (simp add: repo_marker_def)

lemma last_split_marker:
  "fn = pre @ repo_marker @ suf \<Longrightarrow> \<not> sublist repo_marker suf \<Longrightarrow> last (py_split fn repo_marker) = suf"
  unfolding py_split_def
  using last_split_from [of repo_marker "CHR ''g''" "''iskard_hub''" fn pre suf "[]"] marker_head_unique
  by blast

lemma last_split_no_marker:
  "\<not> sublist repo_marker fn \<Longrightarrow> last (py_split fn repo_marker) = fn"
  by (simp add: py_split_def split_from_no_occurrence)

subsection \<open>Trace lines\<close>

lemma traced_ok: "py_print R line = Inr () \<Longrightarrow> traced R line rest = rest"
  by (simp add: traced_def)

lemma traced_raises: "py_print R line = Inl e \<Longrightarrow> traced R line rest = Inl e"
  by (simp add: traced_def)

lemma prints_ok_Cons:
  "prints_ok R (line # lines) \<longleftrightarrow> py_print R line = Inr () \<and> prints_ok R lines"
  by (simp add: prints_ok_def)

lemma prints_ok_Nil: "prints_ok R []"
  by (simp add: prints_ok_def)

subsection \<open>The walk over the dotted name\<close>

lemma walk_failed_ok: "py_print R trace_rule = Inr () \<Longrightarrow> walk_failed R = Inr None"
  by (simp add: walk_failed_def traced_ok)

lemma walk_parts_chain_fails:
  "py_print R trace_rule = Inr () \<Longrightarrow> getattr_chain R obj parts = Inl e
     \<Longrightarrow> walk_parts R obj parts = Inr None"
  by (induction parts arbitrary: obj) (auto simp: walk_failed_ok split: sum.splits)



subsection \<open>The resolver, path by path\<close>

lemma linkcode_resolve_other_domain:
  "domain \<noteq> ''py'' \<Longrightarrow> linkcode_resolve R domain info = Inr None"
  by (simp add: linkcode_resolve_def)

lemma linkcode_resolve_py_info:
  assumes "prints_ok R [trace_rule, ''modname:'' @ modname, ''fullname:'' @ fullname]"
  shows "linkcode_resolve R ''py'' (py_info modname fullname) =
     (case resolve_object R modname fullname of
        Inl e \<Rightarrow> Inl e
      | Inr None \<Rightarrow> Inr None
      | Inr (Some obj) \<Rightarrow> link_of_object R obj)"
  using assms
  by (simp add: linkcode_resolve_def py_info_def prints_ok_Cons traced_ok)


lemma link_of_object_url:
  assumes "py_print R trace_rule = Inr ()"
    and "sourcefile_target R obj = Inr tgt"
    and "getsourcefile R tgt = Inr (Some fn)"
    and "fn \<noteq> []"
    and "py_print R (''fn:'' @ fn) = Inr ()"
    and "py_print R (''linespec:'' @ resolve_linespec R obj) = Inr ()"
  shows "link_of_object R obj =
           Inr (Some (base_url @ last (py_split fn repo_marker) @ resolve_linespec R obj))"
proof -
  have "resolve_fn R obj = Some fn"
    using assms(2,3) by (simp add: resolve_fn_def)
  then show ?thesis
    using assms(1,4,5,6) by (simp add: link_of_object_def Let_def traced_ok)
qed

lemma linkcode_resolve_url:
  assumes "prints_ok R [trace_rule, ''modname:'' @ modname, ''fullname:'' @ fullname]"
    and "resolve_object R modname fullname = Inr (Some obj)"
    and "sourcefile_target R obj = Inr tgt"
    and "getsourcefile R tgt = Inr (Some fn)"
    and "fn \<noteq> []"
    and "py_print R (''fn:'' @ fn) = Inr ()"
    and "py_print R (''linespec:'' @ resolve_linespec R obj) = Inr ()"
  shows "linkcode_resolve R ''py'' (py_info modname fullname) =
           Inr (Some (base_url @ last (py_split fn repo_marker) @ resolve_linespec R obj))"
proof -
  from assms(1) have "py_print R trace_rule = Inr ()"
    by (simp add: prints_ok_Cons)
  then show ?thesis
    using linkcode_resolve_py_info [OF assms(1)] assms(2)
      link_of_object_url [OF _ assms(3-7)]
    by simp
qed

lemma no_test_fn_target:
  "py_getattr R obj ''test_fn'' = Inl AttributeError \<Longrightarrow> sourcefile_target R obj = Inr obj"
  by (simp add: sourcefile_target_def py_hasattr_def)

subsection \<open>Claims about the source-link resolver\<close>

text \<open>
  Claim C1. For an object that exposes \<^verbatim>\<open>test_fn\<close>, the line range of the URL
  should be that of the inner function. The source passes \<^verbatim>\<open>obj.test_fn\<close> to
  \<^verbatim>\<open>inspect.getsourcefile\<close> but \<open>obj\<close> itself to \<^verbatim>\<open>inspect.getsourcelines\<close>.
  In the small runtime the wrapper (object 1) spans lines 20 to 22 and its
  \<^verbatim>\<open>test_fn\<close> (object 2) lines 10 to 11 of \<^verbatim>\<open>checks/base.py\<close>: the URL names
  the file of the inner function with the line range of the wrapper.
\<close>

theorem linkcode_resolve_test_fn_lines:
  "py_getattr demo_runtime 1 ''test_fn'' = Inr 2 \<and>
   getsourcefile demo_runtime 2 = Inr (Some ''/env/giskard_hub/checks/base.py'') \<and>
   getsourcelines demo_runtime 2 = Inr ([''d'', ''e''], 10) \<and>
   getsourcelines demo_runtime 1 = Inr ([''a'', ''b'', ''c''], 20) \<and>
   resolve_object demo_runtime ''pkg.checks'' ''Wrapper'' = Inr (Some 1) \<and>
   linkcode_resolve demo_runtime ''py'' (py_info ''pkg.checks'' ''Wrapper'') =
     Inr (Some (base_url @ ''/checks/base.py#L20-L22''))"
  by code_simp

text \<open>
  Claim C2, as stated, fails in two ways. Where the starting line is 0, which is
  what \<^verbatim>\<open>inspect.getsourcelines\<close> reports for a module, file and lines are both
  introspected, yet \<^verbatim>\<open>if lineno:\<close> takes the branch without a suffix, so the URL
  is not the one ending in \<^verbatim>\<open>#L0-L1\<close>. And where standard output cannot encode
  a trace line, here the file name of \<^verbatim>\<open>carte\<close> (lines 3 to 3), the print
  outside the \<^verbatim>\<open>try\<close> bodies raises and no URL is returned at all.
\<close>

theorem linkcode_resolve_line_zero_counterexample:
  "resolve_object demo_runtime ''pkg.checks'' ''sub'' = Inr (Some 4) \<and>
   sourcefile_target demo_runtime 4 = Inr 4 \<and>
   getsourcefile demo_runtime 4 = Inr (Some ''/env/giskard_hub/sub/__init__.py'') \<and>
   getsourcelines demo_runtime 4 = Inr ([''h'', ''i''], 0) \<and>
   linkcode_resolve demo_runtime ''py'' (py_info ''pkg.checks'' ''sub'') \<noteq>
     Inr (Some (base_url @ ''/sub/__init__.py'' @ ''#L'' @ str_int 0 @ ''-L'' @
       str_int (0 + int (length [''h'', ''i'']) - 1))) \<and>
   getsourcefile ascii_runtime 8 = Inr (Some (''/opt/caf'' @ [CHR 0xE9] @ ''/carte.py'')) \<and>
   getsourcelines ascii_runtime 8 = Inr ([''j''], 3) \<and>
   linkcode_resolve ascii_runtime ''py'' (py_info ''pkg.checks'' ''carte'') =
     Inl UnicodeEncodeError"
  by code_simp

text \<open>
  Claim C2, amended. Take a dotted name that resolves to an object without a
  \<^verbatim>\<open>test_fn\<close> attribute, whose source file is introspected (a non-empty file
  name), and let standard output take the trace lines. When the lines are
  introspected and the starting line is not 0, the resolver returns exactly the
  base URL, then the part of the file name after the marker, then
  \<^verbatim>\<open>#L<start>-L<start+count-1>\<close>. When the starting line is 0 or the lines cannot
  be introspected, the suffix is omitted entirely. Nothing is said of an object
  with \<^verbatim>\<open>test_fn\<close>.
\<close>

theorem linkcode_resolve_exact_url:
  assumes "prints_ok R [trace_rule, ''modname:'' @ modname, ''fullname:'' @ fullname]"
    and "resolve_object R modname fullname = Inr (Some obj)"
    and "py_getattr R obj ''test_fn'' = Inl AttributeError"
    and "getsourcefile R obj = Inr (Some fn)"
    and "fn \<noteq> []"
    and "py_print R (''fn:'' @ fn) = Inr ()"
  shows "(\<forall>source lineno.
            getsourcelines R obj = Inr (source, lineno) \<and> lineno \<noteq> 0 \<and>
            py_print R (''linespec:'' @ ''#L'' @ str_int lineno @ ''-L'' @
              str_int (lineno + int (length source) - 1)) = Inr () \<longrightarrow>
            linkcode_resolve R ''py'' (py_info modname fullname) =
              Inr (Some (base_url @ last (py_split fn repo_marker) @
                ''#L'' @ str_int lineno @ ''-L'' @ str_int (lineno + int (length source) - 1)))) \<and>
         (((\<exists>source. getsourcelines R obj = Inr (source, 0)) \<or>
           (\<exists>e. getsourcelines R obj = Inl e)) \<and>
          py_print R ''linespec:'' = Inr () \<longrightarrow>
            linkcode_resolve R ''py'' (py_info modname fullname) =
              Inr (Some (base_url @ last (py_split fn repo_marker))))"
proof -
  note url = linkcode_resolve_url [OF assms(1,2) no_test_fn_target [OF assms(3)] assms(4,5,6)]
  show ?thesis
  proof (intro conjI allI impI)
    fix source lineno
    assume "getsourcelines R obj = Inr (source, lineno) \<and> lineno \<noteq> 0 \<and>
            py_print R (''linespec:'' @ ''#L'' @ str_int lineno @ ''-L'' @
              str_int (lineno + int (length source) - 1)) = Inr ()"
    then show "linkcode_resolve R ''py'' (py_info modname fullname) =
              Inr (Some (base_url @ last (py_split fn repo_marker) @
                ''#L'' @ str_int lineno @ ''-L'' @ str_int (lineno + int (length source) - 1)))"
      using url by (simp add: resolve_linespec_def)
  next
    assume "((\<exists>source. getsourcelines R obj = Inr (source, 0)) \<or>
           (\<exists>e. getsourcelines R obj = Inl e)) \<and> py_print R ''linespec:'' = Inr ()"
    then show "linkcode_resolve R ''py'' (py_info modname fullname) =
              Inr (Some (base_url @ last (py_split fn repo_marker)))"
      using url by (auto simp: resolve_linespec_def)
  qed
qed

theorem linkcode_resolve_exact_url_witness:
  "linkcode_resolve demo_runtime ''py'' (py_info ''pkg.checks'' ''plain'') =
     Inr (Some (base_url @ ''/opt/lib/plain.py#L7-L8'')) \<and>
   linkcode_resolve demo_runtime ''py'' (py_info ''pkg.checks'' ''sub'') =
     Inr (Some (base_url @ ''/sub/__init__.py'')) \<and>
   linkcode_resolve demo_runtime ''py'' (py_info ''pkg.checks'' ''built'') =
     Inr (Some (base_url @ ''/built.py''))"
proof -
  have p: "py_print demo_runtime line = Inr ()" for line by (simp add: demo_runtime_def)
  have h: "prints_ok demo_runtime lines" for lines by (simp add: prints_ok_def p list_all_iff)
  have o3: "resolve_object demo_runtime ''pkg.checks'' ''plain'' = Inr (Some 3)" by code_simp
  have t3: "py_getattr demo_runtime 3 ''test_fn'' = Inl AttributeError" by code_simp
  have f3: "getsourcefile demo_runtime 3 = Inr (Some ''/opt/lib/plain.py'')" by code_simp
  have n3: "''/opt/lib/plain.py'' \<noteq> []" by simp
  have l3: "getsourcelines demo_runtime 3 = Inr ([''f'', ''g''], 7) \<and> (7::int) \<noteq> 0" by code_simp
  have s3: "last (py_split ''/opt/lib/plain.py'' repo_marker) @ ''#L'' @ str_int 7 @ ''-L'' @
      str_int (7 + int (length [''f'', ''g'']) - 1) = ''/opt/lib/plain.py#L7-L8''"
    by code_simp
  have o4: "resolve_object demo_runtime ''pkg.checks'' ''sub'' = Inr (Some 4)" by code_simp
  have t4: "py_getattr demo_runtime 4 ''test_fn'' = Inl AttributeError" by code_simp
  have f4: "getsourcefile demo_runtime 4 = Inr (Some ''/env/giskard_hub/sub/__init__.py'')"
    by code_simp
  have n4: "''/env/giskard_hub/sub/__init__.py'' \<noteq> []" by simp
  have l4: "\<exists>source. getsourcelines demo_runtime 4 = Inr (source, 0)"
    by (simp add: demo_runtime_def demo_sourcelines_def)
  have s4: "last (py_split ''/env/giskard_hub/sub/__init__.py'' repo_marker) = ''/sub/__init__.py''"
    by code_simp
  have o5: "resolve_object demo_runtime ''pkg.checks'' ''built'' = Inr (Some 5)" by code_simp
  have t5: "py_getattr demo_runtime 5 ''test_fn'' = Inl AttributeError" by code_simp
  have f5: "getsourcefile demo_runtime 5 = Inr (Some ''/env/giskard_hub/built.py'')" by code_simp
  have n5: "''/env/giskard_hub/built.py'' \<noteq> []" by simp
  have l5: "\<exists>e. getsourcelines demo_runtime 5 = Inl e"
    by (simp add: demo_runtime_def demo_sourcelines_def)
  have s5: "last (py_split ''/env/giskard_hub/built.py'' repo_marker) = ''/built.py''"
    by code_simp
  have a: "linkcode_resolve demo_runtime ''py'' (py_info ''pkg.checks'' ''plain'') =
     Inr (Some (base_url @ ''/opt/lib/plain.py#L7-L8''))"
    using linkcode_resolve_exact_url [OF h o3 t3 f3 n3 p] l3 s3 p by simp
  have b: "linkcode_resolve demo_runtime ''py'' (py_info ''pkg.checks'' ''sub'') =
     Inr (Some (base_url @ ''/sub/__init__.py''))"
    using linkcode_resolve_exact_url [OF h o4 t4 f4 n4 p] l4 s4 p by simp
  have c: "linkcode_resolve demo_runtime ''py'' (py_info ''pkg.checks'' ''built'') =
     Inr (Some (base_url @ ''/built.py''))"
    using linkcode_resolve_exact_url [OF h o5 t5 f5 n5 p] l5 s5 p by simp
  from a b c show ?thesis by simp
qed

text \<open>
  Claim C6, as stated, fails where standard output cannot encode the module name
  or the qualified name: the trace lines at the head of the function are outside
  every \<^verbatim>\<open>try\<close> body, so the exception of the print reaches the caller before
  the registry is read. Here the module \<^verbatim>\<open>caf\<close> followed by a character outside
  ASCII is not loaded, and the resolver raises.
\<close>

theorem linkcode_resolve_lookup_miss_counterexample:
  "sys_modules ascii_runtime (''caf'' @ [CHR 0xE9]) = None \<and>
   linkcode_resolve ascii_runtime ''py'' (py_info (''caf'' @ [CHR 0xE9]) ''Wrapper'') =
     Inl UnicodeEncodeError"
  by code_simp

text \<open>
  Claim C6, amended. Let standard output take the three trace lines at the head of
  the function (the rule, the module name, the qualified name). When the module
  name is not in \<^verbatim>\<open>sys.modules\<close>, and when the module is loaded but the chain of
  attribute reads along the dotted name raises at some segment, the resolver
  returns \<^verbatim>\<open>None\<close>, whatever the domain: no URL is built from the segments that
  did resolve.
\<close>

theorem linkcode_resolve_lookup_miss:
  assumes "prints_ok R [trace_rule, ''modname:'' @ modname, ''fullname:'' @ fullname]"
  shows "(sys_modules R modname = None \<longrightarrow>
            linkcode_resolve R domain (py_info modname fullname) = Inr None) \<and>
         (\<forall>submod e. sys_modules R modname = Some (Some submod) \<and>
              getattr_chain R submod (py_split fullname ''.'') = Inl e \<longrightarrow>
            linkcode_resolve R domain (py_info modname fullname) = Inr None)"
proof (cases "domain = ''py''")
  case True
  from assms have rule: "py_print R trace_rule = Inr ()"
    by (simp add: prints_ok_Cons)
  show ?thesis
    using True rule linkcode_resolve_py_info [OF assms]
    by (auto simp: resolve_object_def traced_ok walk_parts_chain_fails)
next
  case False
  then show ?thesis by (simp add: linkcode_resolve_other_domain)
qed

theorem linkcode_resolve_lookup_miss_witness:
  "linkcode_resolve demo_runtime ''py'' (py_info ''pkg'' ''Wrapper'') = Inr None \<and>
   linkcode_resolve demo_runtime ''py'' (py_info ''pkg.checks'' ''Wrapper.nope'') = Inr None"
proof -
  have h: "prints_ok demo_runtime lines" for lines
    by (simp add: prints_ok_def demo_runtime_def list_all_iff)
  have m: "sys_modules demo_runtime ''pkg'' = None" by code_simp
  have s: "sys_modules demo_runtime ''pkg.checks'' = Some (Some 0)" by code_simp
  have c: "getattr_chain demo_runtime 0 (py_split ''Wrapper.nope'' ''.'') = Inl AttributeError"
    by code_simp
  have "linkcode_resolve demo_runtime ''py'' (py_info ''pkg'' ''Wrapper'') = Inr None"
    using linkcode_resolve_lookup_miss [where R = demo_runtime and modname = "''pkg''" and fullname = "''Wrapper''" and domain = "''py''", OF h] m by blast
  moreover have
    "linkcode_resolve demo_runtime ''py'' (py_info ''pkg.checks'' ''Wrapper.nope'') = Inr None"
    using linkcode_resolve_lookup_miss [where R = demo_runtime and modname = "''pkg.checks''" and fullname = "''Wrapper.nope''" and domain = "''py''", OF h] s c
    by blast
  ultimately show ?thesis by simp
qed




text \<open>
  Claim C8, as stated, fails where standard output cannot encode the file name:
  \<^verbatim>\<open>menu\<close> has a source file and no lines, and the print of \<open>fn\<close>, outside the
  \<^verbatim>\<open>try\<close> bodies, raises instead of a URL being returned.
\<close>

theorem linkcode_resolve_whole_file_counterexample:
  "resolve_object ascii_runtime ''pkg.checks'' ''menu'' = Inr (Some 7) \<and>
   sourcefile_target ascii_runtime 7 = Inr 7 \<and>
   getsourcefile ascii_runtime 7 = Inr (Some (''/env/giskard_hub/caf'' @ [CHR 0xE9] @ ''.py'')) \<and>
   getsourcelines ascii_runtime 7 = Inl OSError \<and>
   linkcode_resolve ascii_runtime ''py'' (py_info ''pkg.checks'' ''menu'') =
     Inl UnicodeEncodeError"
  by code_simp

text \<open>
  Claim C8, amended. Let standard output take the trace lines (the rule, the module
  name, the qualified name, the file name and the empty line range). When the
  source file is introspected (a non-empty file name) and
  \<^verbatim>\<open>inspect.getsourcelines\<close> raises, the resolver still returns a URL: the base URL
  and the relative path, with no line range.
\<close>

theorem linkcode_resolve_whole_file:
  assumes "prints_ok R [trace_rule, ''modname:'' @ modname, ''fullname:'' @ fullname,
             ''fn:'' @ fn, ''linespec:'']"
    and "resolve_object R modname fullname = Inr (Some obj)"
    and "sourcefile_target R obj = Inr tgt"
    and "getsourcefile R tgt = Inr (Some fn)"
    and "fn \<noteq> []"
    and "getsourcelines R obj = Inl e"
  shows "linkcode_resolve R ''py'' (py_info modname fullname) =
           Inr (Some (base_url @ last (py_split fn repo_marker)))"
proof -
  have ls: "resolve_linespec R obj = []"
    using assms(6) by (simp add: resolve_linespec_def)
  have "linkcode_resolve R ''py'' (py_info modname fullname) =
           Inr (Some (base_url @ last (py_split fn repo_marker) @ resolve_linespec R obj))"
    using assms(1) ls
    by (intro linkcode_resolve_url [OF _ assms(2-5)]) (simp_all add: prints_ok_Cons)
  with ls show ?thesis by simp
qed

theorem linkcode_resolve_whole_file_witness:
  "linkcode_resolve demo_runtime ''py'' (py_info ''pkg.checks'' ''built'') =
     Inr (Some ''https://github.com/Giskard-AI/giskard-hub/blob/main/src/giskard_hub/built.py'')"
proof -
  have h: "prints_ok demo_runtime lines" for lines
    by (simp add: prints_ok_def demo_runtime_def list_all_iff)
  have o5: "resolve_object demo_runtime ''pkg.checks'' ''built'' = Inr (Some 5)" by code_simp
  have t5: "sourcefile_target demo_runtime 5 = Inr 5" by code_simp
  have f5: "getsourcefile demo_runtime 5 = Inr (Some ''/env/giskard_hub/built.py'')" by code_simp
  have n5: "''/env/giskard_hub/built.py'' \<noteq> []" by simp
  have l5: "getsourcelines demo_runtime 5 = Inl OSError" by code_simp
  have s5: "base_url @ last (py_split ''/env/giskard_hub/built.py'' repo_marker) =
     ''https://github.com/Giskard-AI/giskard-hub/blob/main/src/giskard_hub/built.py''"
    by code_simp
  show ?thesis
    using linkcode_resolve_whole_file [OF h o5 t5 f5 n5 l5] s5 by simp
qed

text \<open>
  Claim C10, as stated, fails where standard output cannot encode the file name:
  the file of \<^verbatim>\<open>carte\<close> holds no occurrence of the marker, and the print of
  \<open>fn\<close> raises instead of a URL being returned.
\<close>

theorem linkcode_resolve_relativize_counterexample:
  "resolve_object ascii_runtime ''pkg.checks'' ''carte'' = Inr (Some 8) \<and>
   sourcefile_target ascii_runtime 8 = Inr 8 \<and>
   getsourcefile ascii_runtime 8 = Inr (Some (''/opt/caf'' @ [CHR 0xE9] @ ''/carte.py'')) \<and>
   \<not> sublist repo_marker (''/opt/caf'' @ [CHR 0xE9] @ ''/carte.py'') \<and>
   linkcode_resolve ascii_runtime ''py'' (py_info ''pkg.checks'' ''carte'') =
     Inl UnicodeEncodeError"
  by code_simp

text \<open>
  Claim C10, amended. Let standard output take the trace lines (the rule, the
  module name, the qualified name, the file name and the line range). The path
  kept is what follows the last occurrence of \<^verbatim>\<open>giskard_hub\<close> in the introspected
  file name; when the file name (non-empty, as every introspected path is) holds
  no occurrence, the resolver does not return \<^verbatim>\<open>None\<close>: the whole file name
  follows the base URL.
\<close>

theorem linkcode_resolve_relativize:
  assumes "prints_ok R [trace_rule, ''modname:'' @ modname, ''fullname:'' @ fullname,
             ''fn:'' @ fn, ''linespec:'' @ resolve_linespec R obj]"
    and "resolve_object R modname fullname = Inr (Some obj)"
    and "sourcefile_target R obj = Inr tgt"
    and "getsourcefile R tgt = Inr (Some fn)"
    and "fn \<noteq> []"
  shows "(\<forall>pre suf. fn = pre @ repo_marker @ suf \<and> \<not> sublist repo_marker suf \<longrightarrow>
            linkcode_resolve R ''py'' (py_info modname fullname) =
              Inr (Some (base_url @ suf @ resolve_linespec R obj))) \<and>
         (\<not> sublist repo_marker fn \<longrightarrow>
            linkcode_resolve R ''py'' (py_info modname fullname) =
              Inr (Some (base_url @ fn @ resolve_linespec R obj)))"
proof -
  have "linkcode_resolve R ''py'' (py_info modname fullname) =
           Inr (Some (base_url @ last (py_split fn repo_marker) @ resolve_linespec R obj))"
    using assms(1)
    by (intro linkcode_resolve_url [OF _ assms(2-5)]) (simp_all add: prints_ok_Cons)
  then show ?thesis
    by (auto simp: last_split_marker last_split_no_marker)
qed

theorem linkcode_resolve_relativize_witness:
  "linkcode_resolve demo_runtime ''py'' (py_info ''pkg.checks'' ''built'') =
     Inr (Some (base_url @ ''/built.py'')) \<and>
   linkcode_resolve demo_runtime ''py'' (py_info ''pkg.checks'' ''plain'') =
     Inr (Some (base_url @ ''/opt/lib/plain.py#L7-L8''))"
proof -
  have h: "prints_ok demo_runtime lines" for lines
    by (simp add: prints_ok_def demo_runtime_def list_all_iff)
  have o5: "resolve_object demo_runtime ''pkg.checks'' ''built'' = Inr (Some 5)" by code_simp
  have t5: "sourcefile_target demo_runtime 5 = Inr 5" by code_simp
  have f5: "getsourcefile demo_runtime 5 = Inr (Some ''/env/giskard_hub/built.py'')" by code_simp
  have n5: "''/env/giskard_hub/built.py'' \<noteq> []" by simp
  have d5: "''/env/giskard_hub/built.py'' = ''/env/'' @ repo_marker @ ''/built.py''"
    by (simp add: repo_marker_def)
  have u5: "\<not> sublist repo_marker ''/built.py''" by code_simp
  have l5: "resolve_linespec demo_runtime 5 = []" by code_simp
  have o3: "resolve_object demo_runtime ''pkg.checks'' ''plain'' = Inr (Some 3)" by code_simp
  have t3: "sourcefile_target demo_runtime 3 = Inr 3" by code_simp
  have f3: "getsourcefile demo_runtime 3 = Inr (Some ''/opt/lib/plain.py'')" by code_simp
  have n3: "''/opt/lib/plain.py'' \<noteq> []" by simp
  have u3: "\<not> sublist repo_marker ''/opt/lib/plain.py''" by code_simp
  have l3: "resolve_linespec demo_runtime 3 = ''#L7-L8''" by code_simp
  have "linkcode_resolve demo_runtime ''py'' (py_info ''pkg.checks'' ''built'') =
     Inr (Some (base_url @ ''/built.py''))"
    using linkcode_resolve_relativize [OF h o5 t5 f5 n5] d5 u5 l5 by simp
  moreover have "linkcode_resolve demo_runtime ''py'' (py_info ''pkg.checks'' ''plain'') =
     Inr (Some (base_url @ ''/opt/lib/plain.py#L7-L8''))"
    using linkcode_resolve_relativize [OF h o3 t3 f3 n3] u3 l3 by simp
  ultimately show ?thesis by simp
qed

section \<open>Properties of the fragment renderer\<close>

lemma element_extend_children:
  "element_extend e items = Element (tagname e) (children e @ items)"
  unfolding element_extend_def
  by (induction items arbitrary: e) (simp_all add: element_append_def)

lemma merge_resolved_children:
  "merge_resolved result rest =
     Element (tagname result) (children result @ concat (map children rest))"
  unfolding merge_resolved_def
  by (induction rest arbitrary: result) (simp_all add: element_extend_children)

lemma resolve_all_map:
  "map (\<lambda>t. toctree_resolve A pagename t (opts_of_kwargs kwargs)) toctrees = map Inr rs
     \<Longrightarrow> resolve_all A pagename kwargs toctrees = Inr rs"
  by (induction toctrees arbitrary: rs) auto

lemma drop_none_comprehension: "drop_none rs = [r. Some r \<leftarrow> rs]"
  unfolding drop_none_def
  by (induction rs) (auto split: option.splits)

lemma resolve_all_cong:
  "(\<And>t. t \<in> set toctrees \<Longrightarrow>
      toctree_resolve A' pagename t (opts_of_kwargs kwargs') =
      toctree_resolve A pagename t (opts_of_kwargs kwargs))
   \<Longrightarrow> resolve_all A' pagename kwargs' toctrees = resolve_all A pagename kwargs toctrees"
  by (induction toctrees) (simp_all split: sum.splits)

lemma resolve_all_None:
  "(\<And>t. t \<in> set toctrees \<Longrightarrow> toctree_resolve A pagename t (opts_of_kwargs kwargs) = Inr None)
   \<Longrightarrow> resolve_all A pagename kwargs toctrees = Inr (replicate (length toctrees) None)"
  by (induction toctrees) (simp_all split: sum.splits)

lemma drop_none_replicate: "drop_none (replicate n None) = []"
  by (simp add: drop_none_def)

lemma resolve_all_raises:
  "map (\<lambda>t. toctree_resolve A pagename t (opts_of_kwargs kwargs)) before = map Inr rs
     \<Longrightarrow> toctree_resolve A pagename t (opts_of_kwargs kwargs) = Inl e
     \<Longrightarrow> resolve_all A pagename kwargs (before @ t # after) = Inl e"
  by (induction before arbitrary: rs) auto

lemma toctree_from_doc_resolved:
  assumes "get_doctree A docname = Inr doc"
    and "map (\<lambda>t. toctree_resolve A pagename t (opts_of_kwargs kwargs)) (findall_toctree A doc)
           = map Inr rs"
  shows "toctree_from_doc A pagename docname kwargs =
           (case [r. Some r \<leftarrow> rs] of
              [] \<Rightarrow> Inr []
            | first # others \<Rightarrow>
                (case render_partial A
                        (Element (tagname first) (concat (map children (first # others)))) of
                   Inl e \<Rightarrow> Inl e
                 | Inr parts \<Rightarrow>
                     (case parts ''fragment'' of
                        None \<Rightarrow> Inl KeyError
                      | Some fragment \<Rightarrow> Inr fragment)))"
proof (cases "findall_toctree A doc = []")
  case True
  with assms show ?thesis by (simp add: toctree_from_doc_def)
next
  case False
  have "resolve_all A pagename kwargs (findall_toctree A doc) = Inr rs"
    using assms(2) by (rule resolve_all_map)
  with False assms(1) show ?thesis
    by (simp add: toctree_from_doc_def Let_def drop_none_comprehension [symmetric]
        merge_resolved_children render_fragment_def split: list.splits)
qed

text \<open>
  Claim C3. Every toctree node found in the source document is resolved against
  \<open>pagename\<close>, the page being rendered, and against no other identifier. First,
  the output is the same whatever \<^verbatim>\<open>resolve\<close> would answer for any other page, the
  source document included. Second, the output is made of the resolutions for
  \<open>pagename\<close> of all the nodes found: when they are \<open>rs\<close>, in document order, the
  output is the rendering of the trees among them, merged. Third, when the
  resolution for \<open>pagename\<close> of any one node raises, after the nodes before it
  have resolved, the call raises the same exception.
\<close>

theorem toctree_from_doc_resolves_for_pagename:
  assumes "get_doctree A docname = Inr doc"
  shows "((\<forall>toctree opts. r pagename toctree opts = toctree_resolve A pagename toctree opts) \<longrightarrow>
            toctree_from_doc (A\<lparr>toctree_resolve := r\<rparr>) pagename docname kwargs =
            toctree_from_doc A pagename docname kwargs) \<and>
         (\<forall>rs.
            map (\<lambda>t. toctree_resolve A pagename t (opts_of_kwargs kwargs)) (findall_toctree A doc)
              = map Inr rs \<longrightarrow>
            toctree_from_doc A pagename docname kwargs =
              (case [r. Some r \<leftarrow> rs] of
                 [] \<Rightarrow> Inr []
               | first # others \<Rightarrow>
                   (case render_partial A
                           (Element (tagname first) (concat (map children (first # others)))) of
                      Inl e \<Rightarrow> Inl e
                    | Inr parts \<Rightarrow>
                        (case parts ''fragment'' of
                           None \<Rightarrow> Inl KeyError
                         | Some fragment \<Rightarrow> Inr fragment)))) \<and>
         (\<forall>before t after rs e.
            findall_toctree A doc = before @ t # after \<and>
            map (\<lambda>t. toctree_resolve A pagename t (opts_of_kwargs kwargs)) before = map Inr rs \<and>
            toctree_resolve A pagename t (opts_of_kwargs kwargs) = Inl e \<longrightarrow>
            toctree_from_doc A pagename docname kwargs = Inl e)"
proof (intro conjI allI impI)
  assume same: "\<forall>toctree opts. r pagename toctree opts = toctree_resolve A pagename toctree opts"
  have "resolve_all (A\<lparr>toctree_resolve := r\<rparr>) pagename kwargs ts =
        resolve_all A pagename kwargs ts" for ts
    by (rule resolve_all_cong) (simp add: same)
  moreover have "render_fragment (A\<lparr>toctree_resolve := r\<rparr>) e = render_fragment A e" for e
    by (simp add: render_fragment_def)
  ultimately show "toctree_from_doc (A\<lparr>toctree_resolve := r\<rparr>) pagename docname kwargs =
            toctree_from_doc A pagename docname kwargs"
    by (simp add: toctree_from_doc_def Let_def split: sum.splits list.splits)
next
  fix rs
  assume "map (\<lambda>t. toctree_resolve A pagename t (opts_of_kwargs kwargs)) (findall_toctree A doc)
              = map Inr rs"
  then show "toctree_from_doc A pagename docname kwargs =
              (case [r. Some r \<leftarrow> rs] of
                 [] \<Rightarrow> Inr []
               | first # others \<Rightarrow>
                   (case render_partial A
                           (Element (tagname first) (concat (map children (first # others)))) of
                      Inl e \<Rightarrow> Inl e
                    | Inr parts \<Rightarrow>
                        (case parts ''fragment'' of
                           None \<Rightarrow> Inl KeyError
                         | Some fragment \<Rightarrow> Inr fragment)))"
    by (rule toctree_from_doc_resolved [OF assms])
next
  fix before t after rs e
  assume h: "findall_toctree A doc = before @ t # after \<and>
            map (\<lambda>t. toctree_resolve A pagename t (opts_of_kwargs kwargs)) before = map Inr rs \<and>
            toctree_resolve A pagename t (opts_of_kwargs kwargs) = Inl e"
  then have "resolve_all A pagename kwargs (findall_toctree A doc) = Inl e"
    using resolve_all_raises [of A pagename kwargs before rs t e after] by simp
  with h assms show "toctree_from_doc A pagename docname kwargs = Inl e"
    by (simp add: toctree_from_doc_def)
qed

theorem toctree_from_doc_resolves_for_pagename_witness:
  "toctree_from_doc
     (demo_app\<lparr>toctree_resolve :=
        (\<lambda>page toc opts. if page = ''page'' then demo_resolve page toc opts else Inl OtherError)\<rparr>)
     ''page'' ''nav'' Map.empty =
   toctree_from_doc demo_app ''page'' ''nav'' Map.empty \<and>
   toctree_from_doc demo_app ''page'' ''nav'' Map.empty = Inr ''ul(a()b()c())'' \<and>
   toctree_from_doc
     (demo_app\<lparr>toctree_resolve :=
        (\<lambda>page toc opts. if toc = 3 then Inl ValueError else demo_resolve page toc opts)\<rparr>)
     ''page'' ''nav'' Map.empty = Inl ValueError"
proof -
  let ?B = "demo_app\<lparr>toctree_resolve :=
        (\<lambda>page toc opts. if toc = 3 then Inl ValueError else demo_resolve page toc opts)\<rparr>"
  have d: "get_doctree demo_app ''nav'' = Inr [1, 2, 3]" by (simp add: demo_app_def)
  have r: "toctree_resolve demo_app = demo_resolve" by (simp add: demo_app_def)
  have m: "map (\<lambda>t. toctree_resolve demo_app ''page'' t (opts_of_kwargs Map.empty))
             (findall_toctree demo_app [1, 2, 3]) =
           map Inr [Some (Element ''ul'' [Element ''a'' [], Element ''b'' []]), None,
                    Some (Element ''ol'' [Element ''c'' []])]"
    by (simp add: demo_app_def demo_resolve_def)
  have p: "render_partial demo_app
             (Element ''ul'' [Element ''a'' [], Element ''b'' [], Element ''c'' []]) =
           Inr [''fragment'' \<mapsto> ''ul(a()b()c())'']"
    by (simp add: demo_app_def)
  have a: "toctree_from_doc
     (demo_app\<lparr>toctree_resolve :=
        (\<lambda>page toc opts. if page = ''page'' then demo_resolve page toc opts else Inl OtherError)\<rparr>)
     ''page'' ''nav'' Map.empty =
   toctree_from_doc demo_app ''page'' ''nav'' Map.empty"
    using toctree_from_doc_resolves_for_pagename [OF d,
        of "\<lambda>page toc opts. if page = ''page'' then demo_resolve page toc opts else Inl OtherError"
           "''page''" Map.empty] r
    by simp
  have b: "toctree_from_doc demo_app ''page'' ''nav'' Map.empty = Inr ''ul(a()b()c())''"
    using toctree_from_doc_resolves_for_pagename [OF d, of undefined "''page''" Map.empty,
        THEN conjunct2, THEN conjunct1, rule_format, OF m] p
    by simp
  have dB: "get_doctree ?B ''nav'' = Inr [1, 2, 3]" by (simp add: demo_app_def)
  have fB: "findall_toctree ?B [1, 2, 3] = [1, 2] @ 3 # []" by (simp add: demo_app_def)
  have mB: "map (\<lambda>t. toctree_resolve ?B ''page'' t (opts_of_kwargs Map.empty)) [1, 2] =
      map Inr [Some (Element ''ul'' [Element ''a'' [], Element ''b'' []]), None]"
    by (simp add: demo_resolve_def)
  have eB: "toctree_resolve ?B ''page'' 3 (opts_of_kwargs Map.empty) = Inl ValueError"
    by simp
  have c: "toctree_from_doc ?B ''page'' ''nav'' Map.empty = Inl ValueError"
    using toctree_from_doc_resolves_for_pagename [OF dB, of undefined "''page''" Map.empty]
      fB mB eB
    by blast
  from a b c show ?thesis by simp
qed

text \<open>
  Claim C4. When the resolutions of the toctree nodes, in document order, are
  \<open>rs\<close> and those that are not \<^verbatim>\<open>None\<close> are \<open>first\<close> followed by \<open>others\<close>, one
  tree is rendered: the tag of \<open>first\<close> over the children of \<open>first\<close> followed by
  the children of each of \<open>others\<close>, in that order. The string returned is the
  entry \<^verbatim>\<open>fragment\<close> of what \<^verbatim>\<open>render_partial\<close> makes of that tree.
\<close>

theorem toctree_from_doc_merges_in_order:
  assumes "get_doctree A docname = Inr doc"
    and "map (\<lambda>t. toctree_resolve A pagename t (opts_of_kwargs kwargs)) (findall_toctree A doc)
           = map Inr rs"
    and "[r. Some r \<leftarrow> rs] = first # others"
    and "render_partial A (Element (tagname first) (concat (map children (first # others))))
           = Inr parts"
    and "parts ''fragment'' = Some fragment"
  shows "toctree_from_doc A pagename docname kwargs = Inr fragment"
  using toctree_from_doc_resolved [OF assms(1,2)] assms(3,4,5) by simp

theorem toctree_from_doc_merges_in_order_witness:
  "toctree_from_doc demo_app ''page'' ''nav'' Map.empty = Inr ''ul(a()b()c())''"
proof -
  have d: "get_doctree demo_app ''nav'' = Inr [1, 2, 3]" by (simp add: demo_app_def)
  have m: "map (\<lambda>t. toctree_resolve demo_app ''page'' t (opts_of_kwargs Map.empty))
             (findall_toctree demo_app [1, 2, 3]) =
           map Inr [Some (Element ''ul'' [Element ''a'' [], Element ''b'' []]), None,
                    Some (Element ''ol'' [Element ''c'' []])]"
    by (simp add: demo_app_def demo_resolve_def)
  have c: "[r. Some r \<leftarrow> [Some (Element ''ul'' [Element ''a'' [], Element ''b'' []]), None,
                    Some (Element ''ol'' [Element ''c'' []])]] =
           Element ''ul'' [Element ''a'' [], Element ''b'' []] # [Element ''ol'' [Element ''c'' []]]"
    by simp
  have p: "render_partial demo_app
             (Element (tagname (Element ''ul'' [Element ''a'' [], Element ''b'' []]))
                (concat (map children
                   (Element ''ul'' [Element ''a'' [], Element ''b'' []] #
                    [Element ''ol'' [Element ''c'' []]])))) =
           Inr [''fragment'' \<mapsto> ''ul(a()b()c())'']"
    by (simp add: demo_app_def)
  have f: "[''fragment'' \<mapsto> ''ul(a()b()c())''] ''fragment'' = Some ''ul(a()b()c())''"
    by simp
  show ?thesis
    by (rule toctree_from_doc_merges_in_order [OF d m c p f])
qed

text \<open>
  Claim C5. When the parse tree of the source document holds no toctree node, and
  when every toctree node resolves to \<^verbatim>\<open>None\<close>, the renderer returns the empty
  string and raises nothing.
\<close>

theorem toctree_from_doc_empty:
  assumes "get_doctree A docname = Inr doc"
  shows "(findall_toctree A doc = [] \<longrightarrow> toctree_from_doc A pagename docname kwargs = Inr []) \<and>
         ((\<forall>t \<in> set (findall_toctree A doc).
              toctree_resolve A pagename t (opts_of_kwargs kwargs) = Inr None) \<longrightarrow>
            toctree_from_doc A pagename docname kwargs = Inr [])"
proof (intro conjI impI)
  assume "findall_toctree A doc = []"
  then show "toctree_from_doc A pagename docname kwargs = Inr []"
    using assms by (simp add: toctree_from_doc_def)
next
  assume "\<forall>t \<in> set (findall_toctree A doc).
            toctree_resolve A pagename t (opts_of_kwargs kwargs) = Inr None"
  then have "resolve_all A pagename kwargs (findall_toctree A doc) =
               Inr (replicate (length (findall_toctree A doc)) None)"
    by (intro resolve_all_None) simp
  then show "toctree_from_doc A pagename docname kwargs = Inr []"
    using assms by (simp add: toctree_from_doc_def Let_def drop_none_replicate)
qed

theorem toctree_from_doc_empty_witness:
  "toctree_from_doc demo_app ''page'' ''bare'' Map.empty = Inr [] \<and>
   toctree_from_doc demo_app ''page'' ''hidden'' Map.empty = Inr []"
proof -
  have b: "get_doctree demo_app ''bare'' = Inr []" by (simp add: demo_app_def)
  have fb: "findall_toctree demo_app [] = []" by (simp add: demo_app_def)
  have h: "get_doctree demo_app ''hidden'' = Inr [2]" by (simp add: demo_app_def)
  have fh: "\<forall>t \<in> set (findall_toctree demo_app [2]).
              toctree_resolve demo_app ''page'' t (opts_of_kwargs Map.empty) = Inr None"
    by (simp add: demo_app_def demo_resolve_def)
  have "toctree_from_doc demo_app ''page'' ''bare'' Map.empty = Inr []"
    using toctree_from_doc_empty [OF b, of "''page''" Map.empty] fb by blast
  moreover have "toctree_from_doc demo_app ''page'' ''hidden'' Map.empty = Inr []"
    using toctree_from_doc_empty [OF h, of "''page''" Map.empty] fh by blast
  ultimately show ?thesis by simp
qed


section \<open>Properties of the fragment renderer on the store\<close>

lemma drop_none_addrs_from:
  "drop_none_addr (addrs_from n rs) = [n ..< n + length (drop_none rs)]"
proof (induction n rs rule: addrs_from.induct)
  case (1 n)
  then show ?case by (simp add: drop_none_addr_def drop_none_def)
next
  case (2 n rs)
  then show ?case by (simp add: drop_none_addr_def drop_none_def)
next
  case (3 n tree rs)
  then show ?case by (simp add: drop_none_addr_def drop_none_def upt_rec)
qed

lemma drop_none_Some: "drop_none (Some tree # rs) = tree # drop_none rs"
  by (simp add: drop_none_def)

lemma drop_none_None: "drop_none (None # rs) = drop_none rs"
  by (simp add: drop_none_def)

lemma resolve_all_st_raises:
  assumes "builds_fresh E tree_of"
  shows "resolve_all (app_of E tree_of) pagename kwargs toctrees = Inl e
           \<Longrightarrow> fst (resolve_all_st E pagename kwargs toctrees h) = Inl e"
proof (induction toctrees arbitrary: h)
  case Nil
  then show ?case by simp
next
  case (Cons t ts)
  have step: "eng_resolve E pagename t (opts_of_kwargs kwargs) h =
          (case tree_of pagename t (opts_of_kwargs kwargs) of
             Inl e \<Rightarrow> (Inl e, h)
           | Inr None \<Rightarrow> (Inr None, h)
           | Inr (Some tree) \<Rightarrow> (Inr (Some (length h)), h @ [tree]))"
    using assms by (simp add: builds_fresh_def)
  have app: "toctree_resolve (app_of E tree_of) = tree_of" by (simp add: app_of_def)
  show ?case
  proof (cases "tree_of pagename t (opts_of_kwargs kwargs)")
    case (Inl e')
    with step app Cons.prems show ?thesis by simp
  next
    case (Inr r)
    with app Cons.prems have tail: "resolve_all (app_of E tree_of) pagename kwargs ts = Inl e"
      by (simp split: sum.splits)
    obtain a h1 where h1: "eng_resolve E pagename t (opts_of_kwargs kwargs) h = (Inr a, h1)"
      using step Inr by (cases r) simp_all
    obtain x h2 where x: "resolve_all_st E pagename kwargs ts h1 = (x, h2)"
      by (cases "resolve_all_st E pagename kwargs ts h1")
    with Cons.IH [OF tail, of h1] have "x = Inl e" by simp
    with h1 x show ?thesis by simp
  qed
qed

lemma resolve_all_st_returns:
  assumes "builds_fresh E tree_of"
  shows "resolve_all (app_of E tree_of) pagename kwargs toctrees = Inr rs
           \<Longrightarrow> resolve_all_st E pagename kwargs toctrees h =
                 (Inr (addrs_from (length h) rs), h @ drop_none rs)"
proof (induction toctrees arbitrary: h rs)
  case Nil
  then show ?case by (auto simp: drop_none_def)
next
  case (Cons t ts)
  have step: "eng_resolve E pagename t (opts_of_kwargs kwargs) h =
          (case tree_of pagename t (opts_of_kwargs kwargs) of
             Inl e \<Rightarrow> (Inl e, h)
           | Inr None \<Rightarrow> (Inr None, h)
           | Inr (Some tree) \<Rightarrow> (Inr (Some (length h)), h @ [tree]))"
    using assms by (simp add: builds_fresh_def)
  have app: "toctree_resolve (app_of E tree_of) = tree_of" by (simp add: app_of_def)
  from Cons.prems app obtain r rs' where
    r: "tree_of pagename t (opts_of_kwargs kwargs) = Inr r"
    and tail: "resolve_all (app_of E tree_of) pagename kwargs ts = Inr rs'"
    and rs: "rs = r # rs'"
    by (auto split: sum.splits)
  show ?case
  proof (cases r)
    case None
    with r step have "eng_resolve E pagename t (opts_of_kwargs kwargs) h = (Inr None, h)"
      by simp
    with Cons.IH [OF tail, of h] rs None show ?thesis
      by (simp add: drop_none_None)
  next
    case (Some tree)
    with r step have "eng_resolve E pagename t (opts_of_kwargs kwargs) h =
        (Inr (Some (length h)), h @ [tree])"
      by simp
    with Cons.IH [OF tail, of "h @ [tree]"] rs Some show ?thesis
      by (simp add: drop_none_Some)
  qed
qed

lemma merge_st_apart:
  assumes "result < length h" "\<forall>t \<in> set rest. t < length h \<and> t \<noteq> result"
  shows "merge_st h result rest =
           (Inr (), h[result := merge_resolved (h ! result) (map ((!) h) rest)])"
  using assms
proof (induction rest arbitrary: h)
  case Nil
  then show ?case by (simp add: merge_resolved_def)
next
  case (Cons t rest)
  let ?h1 = "h[result := element_extend (h ! result) (children (h ! t))]"
  from Cons.prems have t: "t < length h" "t \<noteq> result" by simp_all
  then have ext: "extend_at h result t = (Inr (), ?h1)"
    using Cons.prems(1) by (simp add: extend_at_def)
  have len: "result < length ?h1" using Cons.prems(1) by simp
  have rest: "\<forall>t \<in> set rest. t < length ?h1 \<and> t \<noteq> result" using Cons.prems(2) by simp
  have same: "map ((!) ?h1) rest = map ((!) h) rest"
    using Cons.prems(2) by (auto simp: nth_list_update)
  have "merge_st h result (t # rest) = merge_st ?h1 result rest"
    using ext by simp
  also have "\<dots> = (Inr (), ?h1[result := merge_resolved (?h1 ! result) (map ((!) ?h1) rest)])"
    using Cons.IH [OF len rest] .
  also have "\<dots> = (Inr (), ?h1[result := merge_resolved (?h1 ! result) (map ((!) h) rest)])"
    by (simp only: same)
  also have "?h1 ! result = element_extend (h ! result) (children (h ! t))"
    using Cons.prems(1) by simp
  also have "merge_resolved (element_extend (h ! result) (children (h ! t))) (map ((!) h) rest) =
      merge_resolved (h ! result) (map ((!) h) (t # rest))"
    by (simp add: merge_resolved_def)
  also have "?h1[result := merge_resolved (h ! result) (map ((!) h) (t # rest))] =
      h[result := merge_resolved (h ! result) (map ((!) h) (t # rest))]"
    by simp
  finally show ?case .
qed

lemma merge_st_fresh:
  "merge_st (h @ tree # trees) (length h) [Suc (length h) ..< Suc (length h) + length trees] =
     (Inr (), h @ merge_resolved tree trees # trees)"
proof -
  let ?g = "h @ tree # trees"
  let ?rest = "[Suc (length h) ..< Suc (length h) + length trees]"
  have "?rest = map (\<lambda>i. i + Suc (length h)) [0 ..< length trees]"
    by (metis map_add_upt add.commute)
  moreover have "map ((!) ?g) (map (\<lambda>i. i + Suc (length h)) [0 ..< length trees]) =
      map ((!) trees) [0 ..< length trees]"
    by (simp add: nth_append)
  ultimately have "map ((!) ?g) ?rest = trees"
    by (simp add: map_nth)
  moreover have "?g ! length h = tree" by simp
  moreover have "?g[length h := merge_resolved tree trees] = h @ merge_resolved tree trees # trees"
    by (simp add: list_update_append)
  moreover have "merge_st ?g (length h) ?rest =
      (Inr (), ?g[length h := merge_resolved (?g ! length h) (map ((!) ?g) ?rest)])"
    by (rule merge_st_apart) auto
  ultimately show ?thesis by simp
qed

lemma toctree_from_doc_st_fresh:
  assumes "builds_fresh E tree_of"
  shows "fst (toctree_from_doc_st E pagename docname kwargs h) =
           toctree_from_doc (app_of E tree_of) pagename docname kwargs"
proof (cases "eng_get_doctree E docname")
  case (Inl e)
  then show ?thesis by (simp add: toctree_from_doc_st_def toctree_from_doc_def app_of_def)
next
  case (Inr doc)
  let ?ts = "eng_findall_toctree E doc"
  show ?thesis
  proof (cases "?ts = []")
    case True
    with Inr show ?thesis by (simp add: toctree_from_doc_st_def toctree_from_doc_def app_of_def)
  next
    case False
    have app: "get_doctree (app_of E tree_of) = eng_get_doctree E"
      "findall_toctree (app_of E tree_of) = eng_findall_toctree E"
      by (simp_all add: app_of_def)
    show ?thesis
    proof (cases "resolve_all (app_of E tree_of) pagename kwargs ?ts")
      case (Inl e)
      obtain x h1 where x: "resolve_all_st E pagename kwargs ?ts h = (x, h1)"
        by (cases "resolve_all_st E pagename kwargs ?ts h")
      with resolve_all_st_raises [OF assms Inl, of h] have "x = Inl e" by simp
      with x Inl Inr False app show ?thesis
        by (simp add: toctree_from_doc_st_def toctree_from_doc_def)
    next
      case rs: (Inr rs)
      note st = resolve_all_st_returns [OF assms rs, of h]
      show ?thesis
      proof (cases "drop_none rs")
        case Nil
        with st rs Inr False app show ?thesis
          by (simp add: toctree_from_doc_st_def toctree_from_doc_def drop_none_addrs_from)
      next
        case (Cons tree trees)
        have addrs: "drop_none_addr (addrs_from (length h) rs) =
            length h # [Suc (length h) ..< Suc (length h) + length trees]"
          using Cons by (simp add: drop_none_addrs_from upt_rec)
        have "render_fragment_st E (h @ merge_resolved tree trees # trees) (length h) =
            render_fragment (app_of E tree_of) (merge_resolved tree trees)"
          by (simp add: render_fragment_st_def render_fragment_def app_of_def)
        with st rs Inr False Cons addrs merge_st_fresh [of h tree trees] app show ?thesis
          by (simp add: toctree_from_doc_st_def toctree_from_doc_def)
      qed
    qed
  qed
qed

text \<open>
  An engine that hands out objects it keeps is another matter: the first call
  extends the kept tree of node 1 in place, and the second call, given the same
  object again, renders one child more. There the call itself has changed what
  the engine answers from.
\<close>

lemma keeping_engine_second_call:
  "fst (toctree_from_doc_st keeping_engine ''page'' ''nav'' Map.empty kept_store) =
     Inr ''ul(a()b()c())'' \<and>
   fst (toctree_from_doc_st keeping_engine ''page'' ''nav'' Map.empty
          (snd (toctree_from_doc_st keeping_engine ''page'' ''nav'' Map.empty kept_store))) =
     Inr ''ul(a()b()c()c())''"
  by code_simp

text \<open>
  Claim C9. Let the document environment be unchanged: for both calls the engine
  answers from the same \<open>tree_of\<close>, building the tree it returns anew, so that no
  object the first call has extended is handed out again. Then a second call with
  the same page, the same source document and the same options, made on the store
  that the first call has left, returns the same output as the first.
\<close>

theorem toctree_from_doc_idempotent:
  assumes "builds_fresh E tree_of"
  shows "fst (toctree_from_doc_st E pagename docname kwargs
                (snd (toctree_from_doc_st E pagename docname kwargs h))) =
         fst (toctree_from_doc_st E pagename docname kwargs h)"
  by (simp add: toctree_from_doc_st_fresh [OF assms])

theorem toctree_from_doc_idempotent_witness:
  "fst (toctree_from_doc_st demo_engine ''page'' ''nav'' Map.empty
          (snd (toctree_from_doc_st demo_engine ''page'' ''nav'' Map.empty []))) =
   fst (toctree_from_doc_st demo_engine ''page'' ''nav'' Map.empty []) \<and>
   fst (toctree_from_doc_st demo_engine ''page'' ''nav'' Map.empty []) = Inr ''ul(a()b()c())''"
proof -
  have f: "builds_fresh demo_engine demo_resolve"
    by (simp add: builds_fresh_def demo_engine_def alloc_tree_def)
  have v: "fst (toctree_from_doc_st demo_engine ''page'' ''nav'' Map.empty []) =
      Inr ''ul(a()b()c())''"
    by code_simp
  show ?thesis
    using toctree_from_doc_idempotent [OF f, of "''page''" "''nav''" Map.empty "[]"] v
    by simp
qed

end
